theory Spec2Isabelle
  imports Main "HOL-Library.Word" "HOL-Library.Sublist" "HOL-Library.Multiset"
begin

section \<open>News pipeline: data model\<close>

text \<open>
  A shallow embedding of the news pipeline of package \<open>data\<close>: the orchestrator
  \<open>RunNewsPipeline\<close>, the four source adapters, the retrying HTTP helper
  \<open>doGetWithRetry\<close> and \<open>deduplicateArticles\<close>.

  Go strings and byte slices are byte sequences, modelled as \<open>string\<close> (a list of 8-bit
  characters). Go's \<open>int\<close> is modelled as \<open>int\<close>: the code only compares limits with 0
  and prints them. Calls into the standard library (environment, HTTP transport, JSON
  decoding, time parsing, the clock, SHA-1) are parameters of the model, collected in the
  record \<open>runtime\<close>; the theorems hold for every behaviour of these parameters. Logging
  never influences control flow and is left out.
\<close>

type_synonym byte = "8 word"

text \<open>
  \<open>time.Time\<close>: seconds since January 1, year 1, 00:00:00 UTC, and nanoseconds.
  The zero value \<open>time.Time{}\<close> is that instant itself.
\<close>

datatype Time = Time int int

definition zero_Time :: Time where
  "zero_Time = Time 0 0"

text \<open>
  \<open>time.Unix(s, n)\<close> adds the offset of the Unix epoch to the seconds in \<open>int64\<close>,
  so the sum wraps around.
\<close>

definition wrap_int64 :: "int \<Rightarrow> int" where
  "wrap_int64 x = (x + 2 ^ 63) mod 2 ^ 64 - 2 ^ 63"

definition time_Unix :: "int \<Rightarrow> int \<Rightarrow> Time" where
  "time_Unix s n = Time (wrap_int64 (s + 62135596800)) n"

record NewsArticle =
  Source :: string
  Title :: string
  Description :: string
  URL :: string
  PublishedAt :: Time

record NewsPipelineConfig =
  FreeMode :: bool
  UseMarketaux :: bool
  MarketauxLimit :: int
  UseFinnhub :: bool
  FinnhubLimit :: int
  UseEODHD :: bool
  EODHDLimit :: int
  UseGoogleCSE :: bool
  GoogleCSELimit :: int
  SkipMarketaux :: bool
  SkipFinnhub :: bool
  SkipEODHD :: bool
  SkipGoogleCSE :: bool

text \<open>The package-level default configuration that \<open>init\<close> installs.\<close>

definition config :: NewsPipelineConfig where
  "config = \<lparr> FreeMode = True,
      UseMarketaux = True, MarketauxLimit = 100,
      UseFinnhub = True, FinnhubLimit = 100,
      UseEODHD = True, EODHDLimit = 20,
      UseGoogleCSE = True, GoogleCSELimit = 50,
      SkipMarketaux = False, SkipFinnhub = False,
      SkipEODHD = False, SkipGoogleCSE = False \<rparr>"

text \<open>
  Go errors. \<open>errorString\<close> is what \<open>errors.New\<close> and \<open>fmt.Errorf\<close> without \<open>%w\<close>
  build; \<open>wrapError p e\<close> is \<open>fmt.Errorf("p: %w", e)\<close>; \<open>joinError\<close> is the value of
  \<open>errors.Join\<close>; \<open>libError\<close> stands for an error made by a library (transport,
  body read, JSON, URL parsing).
\<close>

datatype error =
    errorString string
  | wrapError string error
  | joinError "error list"
  | libError string

text \<open>
  \<open>errors.Join\<close> on a slice without nil entries: nil for the empty slice, a join error
  otherwise.
\<close>

definition errors_Join :: "error list \<Rightarrow> error option" where
  "errors_Join es = (if es = [] then None else Some (joinError es))"

subsection \<open>Formatting\<close>

fun digits :: "nat \<Rightarrow> string" where
  "digits n = (if n < 10 then [''0123456789'' ! n]
               else digits (n div 10) @ [''0123456789'' ! (n mod 10)])"

declare digits.simps [simp del]

text \<open>The verb \<open>%d\<close> on an \<open>int\<close>.\<close>

definition itoa :: "int \<Rightarrow> string" where
  "itoa i = (if i < 0 then CHR ''-'' # digits (nat (- i)) else digits (nat i))"

definition hexdigit :: "nat \<Rightarrow> char" where
  "hexdigit n = ''0123456789abcdef'' ! n"

text \<open>The verb \<open>%x\<close> on a byte array: two lower-case hexadecimal digits per byte.\<close>

definition hex :: "byte list \<Rightarrow> string" where
  "hex bs = concat (map (\<lambda>b. [hexdigit (unat b div 16), hexdigit (unat b mod 16)]) bs)"

section \<open>The deduplicator\<close>

text \<open>
  \<open>fmt.Sprintf("%s_%x", a.URL, sha1.Sum([]byte(a.Title)))\<close>. The digest function
  \<open>crypto/sha1.Sum\<close> is the parameter \<open>sha1_Sum\<close>.
\<close>

definition dedup_key :: "(string \<Rightarrow> byte list) \<Rightarrow> NewsArticle \<Rightarrow> string" where
  "dedup_key sha1_Sum a = URL a @ ''_'' @ hex (sha1_Sum (Title a))"

text \<open>
  The loop of \<open>deduplicateArticles\<close>, with the map \<open>seen\<close> (a set of keys) and the
  slice \<open>result\<close> as loop state.
\<close>

fun dedup_loop ::
  "(string \<Rightarrow> byte list) \<Rightarrow> string set \<Rightarrow> NewsArticle list \<Rightarrow> NewsArticle list
    \<Rightarrow> NewsArticle list" where
  "dedup_loop sha1_Sum seen result [] = result"
| "dedup_loop sha1_Sum seen result (a # articles) =
     (let key = dedup_key sha1_Sum a in
      if key \<notin> seen then dedup_loop sha1_Sum (insert key seen) (result @ [a]) articles
      else dedup_loop sha1_Sum seen result articles)"

definition deduplicateArticles ::
  "(string \<Rightarrow> byte list) \<Rightarrow> NewsArticle list \<Rightarrow> NewsArticle list" where
  "deduplicateArticles sha1_Sum articles = dedup_loop sha1_Sum {} [] articles"

text \<open>
  The records kept by a scan that has already seen the keys in \<open>seen\<close>: a specification
  of the loop, used in the proofs.
\<close>

fun firsts :: "('a \<Rightarrow> 'k) \<Rightarrow> 'k set \<Rightarrow> 'a list \<Rightarrow> 'a list" where
  "firsts k seen [] = []"
| "firsts k seen (x # xs) =
     (if k x \<in> seen then firsts k seen xs else x # firsts k (insert (k x) seen) xs)"

section \<open>Resilient fetch\<close>

text \<open>
  What \<open>client.Do\<close> hands back on success: the status code and the outcome of
  \<open>io.ReadAll(resp.Body)\<close>, which is the bytes read and possibly an error.
\<close>

record http_Response =
  StatusCode :: int
  ReadAll :: "string \<times> error option"

text \<open>A request is identified by its URL (method and context are fixed in a call).\<close>

datatype http_Request = Request string

text \<open>Observable effects of a fetch: an outbound HTTP attempt, a sleep in milliseconds.\<close>

datatype io_event = HttpDo http_Request | Sleep nat

text \<open>
  The element types into which the four adapters decode a response body (the anonymous
  structs of the source, with their string and integer fields).
\<close>

datatype marketaux_item = marketaux_item
  (mx_Title: string) (mx_Description: string) (mx_URL: string) (mx_Source: string)
  (mx_PublishedAt: string)

datatype finnhub_item = finnhub_item
  (fh_Headline: string) (fh_Source: string) (fh_URL: string) (fh_Datetime: int)
  (fh_Summary: string)

datatype eodhd_item = eodhd_item
  (eod_Title: string) (eod_URL: string) (eod_Source: string) (eod_PubDate: string)

text \<open>
  For a Google CSE item, \<open>cse_Metatags\<close> is \<open>Pagemap.Metatags\<close>, each entry given by its
  field \<open>ArticlePublishedTime\<close>.
\<close>

datatype google_item = google_item
  (cse_Title: string) (cse_Snippet: string) (cse_Link: string) (cse_DisplayLink: string)
  (cse_FormattedTime: string) (cse_Metatags: "string list")

text \<open>
  The library functions the pipeline calls. \<open>NewRequestWithContext url\<close> stands for
  \<open>http.NewRequestWithContext(ctx, http.MethodGet, url, nil)\<close>; \<open>client_Do req i\<close> is
  the outcome of the \<open>i\<close>-th attempt (from 0) of one call of \<open>doGetWithRetry\<close> for
  \<open>req\<close>, so that every sequence of network outcomes, cancellation included, is some
  \<open>client_Do\<close>; \<open>Unmarshal_Marketaux\<close> and its siblings are \<open>json.Unmarshal\<close> into the
  adapter's response type; \<open>Now_Format d\<close> is
  \<open>time.Now().AddDate(0, 0, d).Format("2006-01-02")\<close>; \<open>sha1_Sum\<close> is
  \<open>crypto/sha1.Sum\<close> on the bytes of a string.
\<close>

record runtime =
  Getenv :: "string \<Rightarrow> string"
  NewRequestWithContext :: "string \<Rightarrow> error + http_Request"
  client_Do :: "http_Request \<Rightarrow> nat \<Rightarrow> error + http_Response"
  Unmarshal_Marketaux :: "string \<Rightarrow> error + marketaux_item list"
  Unmarshal_Finnhub :: "string \<Rightarrow> error + finnhub_item list"
  Unmarshal_EODHD :: "string \<Rightarrow> error + eodhd_item list"
  Unmarshal_GoogleCSE :: "string \<Rightarrow> error + google_item list"
  time_Parse_RFC3339 :: "string \<Rightarrow> error + Time"
  Now_Format :: "int \<Rightarrow> string"
  sha1_Sum :: "string \<Rightarrow> byte list"

text \<open>
  The Go result pair \<open>([]byte, error)\<close>: \<open>None\<close> is nil.
\<close>

type_synonym get_result = "string option \<times> error option"

text \<open>
  The loop \<open>for i := 0; i < 3; i++\<close> of \<open>doGetWithRetry\<close>, from iteration \<open>i\<close> with
  the current \<open>lastErr\<close>. The result is the returned pair and the effects in order.
\<close>

function doGetWithRetry_loop ::
  "runtime \<Rightarrow> string \<Rightarrow> nat \<Rightarrow> error option \<Rightarrow> get_result \<times> io_event list" where
  "doGetWithRetry_loop rt url i lastErr =
     (if i < 3 then
        (case NewRequestWithContext rt url of
           Inl err \<Rightarrow> ((None, Some err), [])
         | Inr req \<Rightarrow>
            (case client_Do rt req i of
               Inl err \<Rightarrow>
                 (let (r, evs) = doGetWithRetry_loop rt url (i + 1) (Some err)
                  in (r, HttpDo req # Sleep 500 # evs))
             | Inr resp \<Rightarrow>
                 if StatusCode resp \<noteq> 200 then
                   (let body = fst (ReadAll resp);
                        lastErr' = errorString (''status '' @ itoa (StatusCode resp) @ '': '' @ body);
                        (r, evs) = doGetWithRetry_loop rt url (i + 1) (Some lastErr')
                    in (r, HttpDo req # Sleep 500 # evs))
                 else
                   (case ReadAll resp of
                      (body, Some err) \<Rightarrow>
                        (let (r, evs) = doGetWithRetry_loop rt url (i + 1) (Some err)
                         in (r, HttpDo req # Sleep 500 # evs))
                    | (body, None) \<Rightarrow> ((Some body, None), [HttpDo req]))))
      else ((None, lastErr), []))"
  by pat_completeness auto
termination
  by (relation "measure (\<lambda>(rt, url, i, lastErr). 3 - i)") auto

declare doGetWithRetry_loop.simps [simp del]

definition doGetWithRetry :: "runtime \<Rightarrow> string \<Rightarrow> get_result \<times> io_event list" where
  "doGetWithRetry rt url = doGetWithRetry_loop rt url 0 None"

text \<open>
  Notions used to state the retry policy. An attempt fails when \<open>client.Do\<close> returns a
  transport error, when the status is not 200, or when reading the body fails;
  \<open>attempt_error\<close> is the value then assigned to \<open>lastErr\<close>, \<open>response_body\<close> the body
  that was read, and \<open>attempts\<close> counts the outbound attempts among the effects.
\<close>

definition attempt_failed :: "error + http_Response \<Rightarrow> bool" where
  "attempt_failed r =
     (case r of
        Inl err \<Rightarrow> True
      | Inr resp \<Rightarrow> StatusCode resp \<noteq> 200 \<or> snd (ReadAll resp) \<noteq> None)"

definition attempt_error :: "error + http_Response \<Rightarrow> error option" where
  "attempt_error r =
     (case r of
        Inl err \<Rightarrow> Some err
      | Inr resp \<Rightarrow>
          if StatusCode resp \<noteq> 200 then
            Some (errorString (''status '' @ itoa (StatusCode resp) @ '': '' @ fst (ReadAll resp)))
          else snd (ReadAll resp))"

definition response_body :: "error + http_Response \<Rightarrow> string" where
  "response_body r = (case r of Inl err \<Rightarrow> [] | Inr resp \<Rightarrow> fst (ReadAll resp))"

definition attempts :: "io_event list \<Rightarrow> nat" where
  "attempts evs =
     length (filter (\<lambda>e. case e of HttpDo req \<Rightarrow> True | Sleep ms \<Rightarrow> False) evs)"

section \<open>Source adapters\<close>

text \<open>
  Each adapter returns the Go pair \<open>([]NewsArticle, error)\<close> as a sum (every return of
  the source has exactly one of the two non-nil) together with the effects it performed.
\<close>

type_synonym fetch_result = "(error + NewsArticle list) \<times> io_event list"

text \<open>A nil byte slice is read like an empty one.\<close>

definition bytes_of :: "string option \<Rightarrow> string" where
  "bytes_of b = (case b of None \<Rightarrow> [] | Some s \<Rightarrow> s)"

text \<open>
  \<open>t, err := time.Parse(time.RFC3339, s); if err != nil { t = time.Time{} }\<close>,
  as the Marketaux and EODHD loops do.
\<close>

definition parse_or_zero :: "runtime \<Rightarrow> string \<Rightarrow> Time" where
  "parse_or_zero rt s = (case time_Parse_RFC3339 rt s of Inl err \<Rightarrow> zero_Time | Inr t \<Rightarrow> t)"

definition marketaux_url :: "string \<Rightarrow> string \<Rightarrow> string" where
  "marketaux_url company apiKey =
     ''https://api.marketaux.com/v1/news/all?filter_entities=true&entities='' @ company
       @ ''&api_token='' @ apiKey"

definition marketaux_article :: "runtime \<Rightarrow> marketaux_item \<Rightarrow> NewsArticle" where
  "marketaux_article rt item =
     \<lparr> Source = mx_Source item, Title = mx_Title item, Description = mx_Description item,
       URL = mx_URL item, PublishedAt = parse_or_zero rt (mx_PublishedAt item) \<rparr>"

definition fetchFromMarketaux :: "runtime \<Rightarrow> string \<Rightarrow> NewsPipelineConfig \<Rightarrow> fetch_result" where
  "fetchFromMarketaux rt company cfg =
     (if MarketauxLimit cfg \<le> 0 then (Inl (errorString ''marketaux limit reached''), [])
      else
        let apiKey = Getenv rt ''MARKETAUX_API_KEY'' in
        if apiKey = [] then (Inl (errorString ''MARKETAUX_API_KEY not set''), [])
        else
          let url = marketaux_url company apiKey;
              ((body, err), evs) = doGetWithRetry rt url
          in case err of
               Some e \<Rightarrow> (Inl e, evs)
             | None \<Rightarrow>
                (case Unmarshal_Marketaux rt (bytes_of body) of
                   Inl e \<Rightarrow> (Inl (wrapError ''Marketaux JSON unmarshal failed'' e), evs)
                 | Inr items \<Rightarrow> (Inr (map (marketaux_article rt) items), evs)))"

definition finnhub_url :: "string \<Rightarrow> string \<Rightarrow> string \<Rightarrow> string \<Rightarrow> string" where
  "finnhub_url company from to apiKey =
     ''https://finnhub.io/api/v1/company-news?symbol='' @ company
       @ ''&from='' @ from @ ''&to='' @ to @ ''&token='' @ apiKey"

definition finnhub_article :: "finnhub_item \<Rightarrow> NewsArticle" where
  "finnhub_article item =
     \<lparr> Source = fh_Source item, Title = fh_Headline item, Description = fh_Summary item,
       URL = fh_URL item, PublishedAt = time_Unix (fh_Datetime item) 0 \<rparr>"

definition fetchFromFinnhub :: "runtime \<Rightarrow> string \<Rightarrow> NewsPipelineConfig \<Rightarrow> fetch_result" where
  "fetchFromFinnhub rt company cfg =
     (if FinnhubLimit cfg \<le> 0 then (Inl (errorString ''finnhub limit reached''), [])
      else
        let apiKey = Getenv rt ''FINNHUB_API_KEY'' in
        if apiKey = [] then (Inl (errorString ''FINNHUB_API_KEY not set''), [])
        else
          let from = Now_Format rt (- 3);
              to = Now_Format rt 0;
              url = finnhub_url company from to apiKey;
              ((body, err), evs) = doGetWithRetry rt url
          in case err of
               Some e \<Rightarrow> (Inl e, evs)
             | None \<Rightarrow>
                (case Unmarshal_Finnhub rt (bytes_of body) of
                   Inl e \<Rightarrow> (Inl (wrapError ''Finnhub JSON unmarshal failed'' e), evs)
                 | Inr items \<Rightarrow> (Inr (map finnhub_article items), evs)))"

definition eodhd_url :: "string \<Rightarrow> string \<Rightarrow> int \<Rightarrow> string" where
  "eodhd_url apiKey company lim =
     ''https://eodhistoricaldata.com/api/news?api_token='' @ apiKey
       @ ''&symbols='' @ company @ ''&period=d&limit='' @ itoa lim"

definition eodhd_article :: "runtime \<Rightarrow> eodhd_item \<Rightarrow> NewsArticle" where
  "eodhd_article rt item =
     \<lparr> Source = eod_Source item, Title = eod_Title item, Description = [],
       URL = eod_URL item, PublishedAt = parse_or_zero rt (eod_PubDate item) \<rparr>"

definition fetchFromEODHD :: "runtime \<Rightarrow> string \<Rightarrow> NewsPipelineConfig \<Rightarrow> fetch_result" where
  "fetchFromEODHD rt company cfg =
     (if EODHDLimit cfg \<le> 0 then (Inl (errorString ''eodhd limit reached''), [])
      else
        let apiKey = Getenv rt ''EODHD_API_KEY'' in
        if apiKey = [] then (Inl (errorString ''EODHD_API_KEY not set''), [])
        else
          let url = eodhd_url apiKey company (EODHDLimit cfg);
              ((body, err), evs) = doGetWithRetry rt url
          in case err of
               Some e \<Rightarrow> (Inl e, evs)
             | None \<Rightarrow>
                (case Unmarshal_EODHD rt (bytes_of body) of
                   Inl e \<Rightarrow> (Inl (wrapError ''EODHD JSON unmarshal failed'' e), evs)
                 | Inr items \<Rightarrow> (Inr (map (eodhd_article rt) items), evs)))"

definition google_url :: "string \<Rightarrow> string \<Rightarrow> string \<Rightarrow> int \<Rightarrow> string" where
  "google_url company cseID apiKey lim =
     ''https://www.googleapis.com/customsearch/v1?q='' @ company
       @ ''&cx='' @ cseID @ ''&key='' @ apiKey @ ''&num='' @ itoa lim @ ''&sort=date''"

text \<open>
  The Google CSE loop reads the publication time of the first metatag, if there is one
  and it is not empty; a parse failure leaves \<open>publishedAt\<close> at its zero value.
\<close>

definition google_article :: "runtime \<Rightarrow> google_item \<Rightarrow> NewsArticle" where
  "google_article rt item =
     (let publishedAt =
        (case cse_Metatags item of
           [] \<Rightarrow> zero_Time
         | pt # _ \<Rightarrow>
             if pt \<noteq> [] then
               (case time_Parse_RFC3339 rt pt of Inr t \<Rightarrow> t | Inl err \<Rightarrow> zero_Time)
             else zero_Time)
      in \<lparr> Source = cse_DisplayLink item, Title = cse_Title item,
           Description = cse_Snippet item, URL = cse_Link item, PublishedAt = publishedAt \<rparr>)"

definition fetchFromGoogleCSE :: "runtime \<Rightarrow> string \<Rightarrow> NewsPipelineConfig \<Rightarrow> fetch_result" where
  "fetchFromGoogleCSE rt company cfg =
     (if GoogleCSELimit cfg \<le> 0 then (Inl (errorString ''google cse limit reached''), [])
      else
        let apiKey = Getenv rt ''GOOGLE_CSE_API_KEY'';
            cseID = Getenv rt ''GOOGLE_CSE_ID'' in
        if apiKey = [] \<or> cseID = [] then
          (Inl (errorString ''GOOGLE_CSE_API_KEY or GOOGLE_CSE_ID not set''), [])
        else
          let url = google_url company cseID apiKey (GoogleCSELimit cfg);
              ((body, err), evs) = doGetWithRetry rt url
          in case err of
               Some e \<Rightarrow> (Inl e, evs)
             | None \<Rightarrow>
                (case Unmarshal_GoogleCSE rt (bytes_of body) of
                   Inl e \<Rightarrow> (Inl (wrapError ''Google CSE JSON unmarshal failed'' e), evs)
                 | Inr items \<Rightarrow> (Inr (map (google_article rt) items), evs)))"

section \<open>The orchestrator\<close>

text \<open>An entry of the table \<open>fetchers\<close> of \<open>RunNewsPipeline\<close>.\<close>

record fetcher =
  name :: string
  use :: bool
  skip :: bool
  limit :: int
  fetch :: "runtime \<Rightarrow> string \<Rightarrow> NewsPipelineConfig \<Rightarrow> fetch_result"

definition fetchers :: "NewsPipelineConfig \<Rightarrow> fetcher list" where
  "fetchers cfgCopy =
     [ \<lparr> name = ''Marketaux'', use = UseMarketaux cfgCopy, skip = SkipMarketaux cfgCopy,
         limit = MarketauxLimit cfgCopy, fetch = fetchFromMarketaux \<rparr>,
       \<lparr> name = ''Finnhub'', use = UseFinnhub cfgCopy, skip = SkipFinnhub cfgCopy,
         limit = FinnhubLimit cfgCopy, fetch = fetchFromFinnhub \<rparr>,
       \<lparr> name = ''EODHD'', use = UseEODHD cfgCopy, skip = SkipEODHD cfgCopy,
         limit = EODHDLimit cfgCopy, fetch = fetchFromEODHD \<rparr>,
       \<lparr> name = ''GoogleCSE'', use = UseGoogleCSE cfgCopy, skip = SkipGoogleCSE cfgCopy,
         limit = GoogleCSELimit cfgCopy, fetch = fetchFromGoogleCSE \<rparr> ]"

text \<open>
  The dispatch loop starts a goroutine for a fetcher unless
  \<open>!fetcher.use || fetcher.skip || fetcher.limit <= 0\<close>.
\<close>

definition skipped :: "fetcher \<Rightarrow> bool" where
  "skipped f = (\<not> use f \<or> skip f \<or> limit f \<le> 0)"

definition dispatched :: "NewsPipelineConfig \<Rightarrow> fetcher list" where
  "dispatched cfgCopy = filter (\<lambda>f. \<not> skipped f) (fetchers cfgCopy)"

text \<open>
  The Prometheus counters per source label (they live as long as the process), and of the
  histogram the number of observations per label.
\<close>

record metrics =
  newsFetchCount :: "string \<Rightarrow> nat"
  newsFetchErrors :: "string \<Rightarrow> nat"
  newsFetchDuration :: "string \<Rightarrow> nat"

text \<open>
  The state shared by the goroutines of one run: the counters, the accumulators
  \<open>allArticles\<close> and \<open>errs\<close>, and per fetch call the effects it performed.
\<close>

record run_state = metrics +
  allArticles :: "NewsArticle list"
  errs :: "error list"
  calls :: "(string \<times> io_event list) list"

definition inc :: "string \<Rightarrow> (string \<Rightarrow> nat) \<Rightarrow> (string \<Rightarrow> nat)" where
  "inc label c = c(label := c label + 1)"

text \<open>
  The body of one goroutine. The counter updates are atomic and commute between labels,
  and the appends run under the mutex, so a run is a sequence of whole goroutine bodies
  in the order in which they take the mutex.
\<close>

definition goroutine ::
  "runtime \<Rightarrow> string \<Rightarrow> NewsPipelineConfig \<Rightarrow> fetcher \<Rightarrow> run_state \<Rightarrow> run_state" where
  "goroutine rt company cfgCopy f st =
     (let st1 = st\<lparr> newsFetchCount := inc (name f) (newsFetchCount st) \<rparr>;
          (r, evs) = fetch f rt company cfgCopy;
          st2 = st1\<lparr> newsFetchDuration := inc (name f) (newsFetchDuration st1),
                     calls := calls st1 @ [(name f, evs)] \<rparr>
      in case r of
           Inl err \<Rightarrow>
             st2\<lparr> newsFetchErrors := inc (name f) (newsFetchErrors st2),
                  errs := errs st2 @ [wrapError (name f) err] \<rparr>
         | Inr articles \<Rightarrow> st2\<lparr> allArticles := allArticles st2 @ articles \<rparr>)"

text \<open>
  The state at \<open>wg.Wait()\<close>. The parameter \<open>sched\<close> is the scheduler: it gives the order
  in which the started goroutines take the mutex, a permutation of its argument.
\<close>

definition barrier ::
  "runtime \<Rightarrow> (fetcher list \<Rightarrow> fetcher list) \<Rightarrow> metrics \<Rightarrow> string
     \<Rightarrow> NewsPipelineConfig option \<Rightarrow> run_state" where
  "barrier rt sched m company cfg =
     (let cfgCopy = (case cfg of None \<Rightarrow> config | Some c \<Rightarrow> c);
          st0 = \<lparr> newsFetchCount = newsFetchCount m, newsFetchErrors = newsFetchErrors m,
                  newsFetchDuration = newsFetchDuration m,
                  allArticles = [], errs = [], calls = [] \<rparr>
      in foldl (\<lambda>st f. goroutine rt company cfgCopy f st) st0 (sched (dispatched cfgCopy)))"

text \<open>\<open>RunNewsPipeline\<close>: the returned pair, and the final state of the run.\<close>

definition RunNewsPipeline ::
  "runtime \<Rightarrow> (fetcher list \<Rightarrow> fetcher list) \<Rightarrow> metrics \<Rightarrow> string
     \<Rightarrow> NewsPipelineConfig option \<Rightarrow> (NewsArticle list \<times> error option) \<times> run_state" where
  "RunNewsPipeline rt sched m company cfg =
     (let st = barrier rt sched m company cfg;
          uniqueArticles = deduplicateArticles (sha1_Sum rt) (allArticles st)
      in ((uniqueArticles, errors_Join (errs st)), st))"

text \<open>
  What one fetcher hands to the accumulators: its articles when the fetch succeeds, its
  error tagged with its name when the fetch fails.
\<close>

definition fetched_articles ::
  "runtime \<Rightarrow> string \<Rightarrow> NewsPipelineConfig \<Rightarrow> fetcher \<Rightarrow> NewsArticle list" where
  "fetched_articles rt company cfgCopy f =
     (case fst (fetch f rt company cfgCopy) of Inl err \<Rightarrow> [] | Inr articles \<Rightarrow> articles)"

definition fetch_errors ::
  "runtime \<Rightarrow> string \<Rightarrow> NewsPipelineConfig \<Rightarrow> fetcher \<Rightarrow> error list" where
  "fetch_errors rt company cfgCopy f =
     (case fst (fetch f rt company cfgCopy) of
        Inl err \<Rightarrow> [wrapError (name f) err] | Inr articles \<Rightarrow> [])"

section \<open>Example inputs\<close>

text \<open>
  Concrete values on which the theorems below are instantiated. \<open>example_digest\<close> is a
  20-byte digest that pads or cuts its input; it stands in for SHA-1 in the examples only.
\<close>

definition example_digest :: "string \<Rightarrow> byte list" where
  "example_digest t = map (\<lambda>c. of_nat (of_char c)) (take 20 (t @ replicate 20 (CHR 0x00)))"

definition article :: "string \<Rightarrow> string \<Rightarrow> string \<Rightarrow> NewsArticle" where
  "article s u t =
     \<lparr> Source = s, Title = t, Description = [], URL = u, PublishedAt = zero_Time \<rparr>"

definition example_articles :: "NewsArticle list" where
  "example_articles =
     [article ''A'' ''u1'' ''T1'', article ''A'' ''u2'' ''T1'',
      article ''C'' ''u1'' ''T1'', article ''C'' ''u3'' ''T2'']"

text \<open>
  An example runtime around a given behaviour of the network. Its request constructor
  rejects a URL with a line feed, as \<open>net/url\<close> rejects control characters; its JSON
  decoders accept the body \<open>ok\<close> only; its time parser knows one instant.
\<close>

definition example_runtime ::
  "(string \<Rightarrow> string) \<Rightarrow> (http_Request \<Rightarrow> nat \<Rightarrow> error + http_Response) \<Rightarrow> runtime" where
  "example_runtime env net =
     \<lparr> Getenv = env,
       NewRequestWithContext =
         (\<lambda>u. if CHR 0x0A \<in> set u
              then Inl (libError ''net/url: invalid control character in URL'')
              else Inr (Request u)),
       client_Do = net,
       Unmarshal_Marketaux =
         (\<lambda>b. if b = ''ok''
              then Inr [marketaux_item ''T1'' ''d1'' ''u1'' ''wire'' ''2024-01-02T03:04:05Z'',
                        marketaux_item ''T2'' ''d2'' ''u2'' ''wire'' ''yesterday'']
              else Inl (libError ''unexpected end of JSON input'')),
       Unmarshal_Finnhub =
         (\<lambda>b. if b = ''ok''
              then Inr [finnhub_item ''T1'' ''wire'' ''u1'' 1704164645 ''s1'']
              else Inl (libError ''unexpected end of JSON input'')),
       Unmarshal_EODHD =
         (\<lambda>b. if b = ''ok''
              then Inr [eodhd_item ''T1'' ''u1'' ''wire'' ''02/01/2024'',
                        eodhd_item ''T2'' ''u3'' ''wire'' ''2024-01-02T03:04:05Z'']
              else Inl (libError ''unexpected end of JSON input'')),
       Unmarshal_GoogleCSE =
         (\<lambda>b. if b = ''ok''
              then Inr [google_item ''T1'' ''s1'' ''u1'' ''example.com'' [] [''Jan 2, 2024''],
                        google_item ''T3'' ''s3'' ''u4'' ''example.com'' [] []]
              else Inl (libError ''unexpected end of JSON input'')),
       time_Parse_RFC3339 =
         (\<lambda>s. if s = ''2024-01-02T03:04:05Z'' then Inr (Time 63839761445 0)
              else Inl (libError ''parsing time: cannot parse'')),
       Now_Format = (\<lambda>d. if d = 0 then ''2024-01-05'' else ''2024-01-02''),
       sha1_Sum = example_digest \<rparr>"

definition all_keys_set :: "string \<Rightarrow> string" where
  "all_keys_set k = ''secret''"

definition no_keys_set :: "string \<Rightarrow> string" where
  "no_keys_set k = []"

text \<open>
  Network behaviours: every attempt answers with one status and body; the first \<open>n\<close>
  attempts answer 503 and the later ones 200; every attempt fails in the transport, with
  an error that names the attempt.
\<close>

definition always_status :: "int \<Rightarrow> string \<Rightarrow> http_Request \<Rightarrow> nat \<Rightarrow> error + http_Response" where
  "always_status code body req i = Inr \<lparr> StatusCode = code, ReadAll = (body, None) \<rparr>"

definition fail_then_ok :: "nat \<Rightarrow> http_Request \<Rightarrow> nat \<Rightarrow> error + http_Response" where
  "fail_then_ok n req i =
     (if i < n then Inr \<lparr> StatusCode = 503, ReadAll = (''busy'', None) \<rparr>
      else Inr \<lparr> StatusCode = 200, ReadAll = (''ok'', None) \<rparr>)"

definition always_refused :: "http_Request \<Rightarrow> nat \<Rightarrow> error + http_Response" where
  "always_refused req i =
     Inl (libError (''connection refused, attempt '' @ [''012'' ! (i mod 3)]))"

text \<open>
  Two scenarios: every source answers; and a run in which EODHD is skipped by
  configuration and every request to Finnhub fails in the transport.
\<close>

definition example_ok :: runtime where
  "example_ok = example_runtime all_keys_set (always_status 200 ''ok'')"

definition example_config :: NewsPipelineConfig where
  "example_config = config\<lparr> SkipEODHD := True \<rparr>"

definition finnhub_down :: "http_Request \<Rightarrow> nat \<Rightarrow> error + http_Response" where
  "finnhub_down req i =
     (case req of Request u \<Rightarrow>
        if take 18 u = ''https://finnhub.io'' then always_refused req i
        else always_status 200 ''ok'' req i)"

definition example_down :: runtime where
  "example_down = example_runtime all_keys_set finnhub_down"

definition no_metrics :: metrics where
  "no_metrics = \<lparr> newsFetchCount = (\<lambda>label. 0), newsFetchErrors = (\<lambda>label. 0),
                  newsFetchDuration = (\<lambda>label. 0) \<rparr>"

section \<open>Properties of the deduplicator\<close>

subsection \<open>The loop keeps first occurrences\<close>

lemma dedup_loop_firsts:
  "dedup_loop h seen result xs = result @ firsts (dedup_key h) seen xs"
  by (induction xs arbitrary: seen result) (simp_all add: Let_def)

lemma deduplicateArticles_firsts:
  "deduplicateArticles h xs = firsts (dedup_key h) {} xs"
  by (simp add: deduplicateArticles_def dedup_loop_firsts)

lemma firsts_keys: "k ` set (firsts k seen xs) = k ` set xs - seen"
  by (induction xs arbitrary: seen) auto

lemma firsts_subset: "set (firsts k seen xs) \<subseteq> set xs"
  by (induction xs arbitrary: seen) auto

lemma firsts_distinct: "distinct (map k (firsts k seen xs))"
proof (induction xs arbitrary: seen)
  case Nil
  show ?case by simp
next
  case (Cons x xs)
  have "k x \<notin> k ` set (firsts k (insert (k x) seen) xs)"
    by (simp add: firsts_keys)
  with Cons show ?case by simp
qed

lemma firsts_subseq: "subseq (firsts k seen xs) xs"
  by (induction xs arbitrary: seen) (auto intro: subseq_Cons')

lemma firsts_fixpoint:
  "distinct (map k ys) \<Longrightarrow> k ` set ys \<inter> seen = {} \<Longrightarrow> firsts k seen ys = ys"
  by (induction ys arbitrary: seen) auto

lemma firsts_idem: "firsts k {} (firsts k seen xs) = firsts k seen xs"
  by (rule firsts_fixpoint) (simp_all add: firsts_distinct)

lemma firsts_index:
  "firsts k seen xs =
     map (nth xs) (filter (\<lambda>i. k (xs ! i) \<notin> seen \<and> (\<forall>j<i. k (xs ! j) \<noteq> k (xs ! i)))
       [0..<length xs])"
proof (induction xs arbitrary: seen)
  case Nil
  show ?case by simp
next
  case (Cons x xs)
  have upt: "[0..<length (x # xs)] = 0 # map Suc [0..<length xs]"
    by (simp add: upt_conv_Cons map_Suc_upt del: upt_Suc)
  show ?case
  proof (cases "k x \<in> seen")
    case True
    have "firsts k seen (x # xs) = firsts k seen xs"
      using True by simp
    also have "\<dots> = map (nth xs)
        (filter (\<lambda>i. k (xs ! i) \<notin> seen \<and> (\<forall>j<i. k (xs ! j) \<noteq> k (xs ! i))) [0..<length xs])"
      by (rule Cons.IH)
    also have "\<dots> = map (nth (x # xs))
        (filter (\<lambda>i. k ((x # xs) ! i) \<notin> seen \<and> (\<forall>j<i. k ((x # xs) ! j) \<noteq> k ((x # xs) ! i)))
          [0..<length (x # xs)])"
      unfolding upt using True
      by (simp add: filter_map comp_def All_less_Suc2)
        (rule arg_cong [where f = "map ((!) xs)"], rule filter_cong, auto)
    finally show ?thesis .
  next
    case False
    have "firsts k seen (x # xs) = x # firsts k (insert (k x) seen) xs"
      using False by simp
    also have "firsts k (insert (k x) seen) xs = map (nth xs)
        (filter (\<lambda>i. k (xs ! i) \<notin> insert (k x) seen \<and> (\<forall>j<i. k (xs ! j) \<noteq> k (xs ! i)))
          [0..<length xs])"
      by (rule Cons.IH)
    also have "x # \<dots> = map (nth (x # xs))
        (filter (\<lambda>i. k ((x # xs) ! i) \<notin> seen \<and> (\<forall>j<i. k ((x # xs) ! j) \<noteq> k ((x # xs) ! i)))
          [0..<length (x # xs)])"
      unfolding upt using False
      by (simp add: filter_map comp_def All_less_Suc2)
        (rule arg_cong [where f = "map ((!) xs)"], rule filter_cong, auto)
    finally show ?thesis .
  qed
qed

subsection \<open>Equal keys mean equal URL and equal title digest\<close>









subsection \<open>Claims about \<open>deduplicateArticles\<close>\<close>




text \<open>
  Claim C7. The output of \<open>deduplicateArticles\<close> is a subsequence of its input, made of
  the first occurrence of every deduplication key, in the order of the input: it lists
  the records at the indices \<open>i\<close> whose key does not occur before \<open>i\<close>, by increasing
  index, and no key occurs twice in it.
\<close>

theorem deduplicateArticles_first_occurrences:
  "subseq (deduplicateArticles h xs) xs
   \<and> deduplicateArticles h xs =
        map (nth xs)
          (filter (\<lambda>i. \<forall>j<i. dedup_key h (xs ! j) \<noteq> dedup_key h (xs ! i)) [0..<length xs])
   \<and> distinct (map (dedup_key h) (deduplicateArticles h xs))"
proof (intro conjI)
  show "subseq (deduplicateArticles h xs) xs"
    by (simp add: deduplicateArticles_firsts firsts_subseq)
  show "deduplicateArticles h xs =
      map (nth xs)
        (filter (\<lambda>i. \<forall>j<i. dedup_key h (xs ! j) \<noteq> dedup_key h (xs ! i)) [0..<length xs])"
    by (simp add: deduplicateArticles_firsts firsts_index)
  show "distinct (map (dedup_key h) (deduplicateArticles h xs))"
    by (simp add: deduplicateArticles_firsts firsts_distinct)
qed

theorem deduplicateArticles_first_occurrences_witness:
  "deduplicateArticles example_digest example_articles =
     [article ''A'' ''u1'' ''T1'', article ''A'' ''u2'' ''T1'', article ''C'' ''u3'' ''T2'']
   \<and> subseq [article ''A'' ''u1'' ''T1'', article ''A'' ''u2'' ''T1'', article ''C'' ''u3'' ''T2'']
        example_articles
   \<and> distinct (map (dedup_key example_digest)
        [article ''A'' ''u1'' ''T1'', article ''A'' ''u2'' ''T1'', article ''C'' ''u3'' ''T2''])"
proof -
  have run: "deduplicateArticles example_digest example_articles =
      [article ''A'' ''u1'' ''T1'', article ''A'' ''u2'' ''T1'', article ''C'' ''u3'' ''T2'']"
    by (simp add: deduplicateArticles_def dedup_key_def example_articles_def article_def
        example_digest_def hex_def hexdigit_def)
  have "subseq (deduplicateArticles example_digest example_articles) example_articles"
    and "distinct (map (dedup_key example_digest)
      (deduplicateArticles example_digest example_articles))"
    using deduplicateArticles_first_occurrences [of example_digest example_articles]
    by blast+
  with run show ?thesis by simp
qed

text \<open>
  Claim C8. \<open>deduplicateArticles\<close> is idempotent: deduplicating a deduplicated list
  changes nothing.
\<close>

theorem deduplicateArticles_idempotent:
  "deduplicateArticles h (deduplicateArticles h xs) = deduplicateArticles h xs"
  by (simp add: deduplicateArticles_firsts firsts_idem)

section \<open>Properties of the resilient fetch\<close>

lemma loop_exit: "doGetWithRetry_loop rt url 3 lastErr = ((None, lastErr), [])"
  by (simp add: doGetWithRetry_loop.simps)

lemma loop_request_error:
  "NewRequestWithContext rt url = Inl err \<Longrightarrow> i < 3 \<Longrightarrow>
     doGetWithRetry_loop rt url i lastErr = ((None, Some err), [])"
  by (simp add: doGetWithRetry_loop.simps)

lemma loop_step:
  assumes "NewRequestWithContext rt url = Inr req" and "i < 3"
  shows "doGetWithRetry_loop rt url i lastErr =
     (case attempt_error (client_Do rt req i) of
        None \<Rightarrow> ((Some (response_body (client_Do rt req i)), None), [HttpDo req])
      | Some err \<Rightarrow>
          (fst (doGetWithRetry_loop rt url (i + 1) (Some err)),
           HttpDo req # Sleep 500 # snd (doGetWithRetry_loop rt url (i + 1) (Some err))))"
  using assms
  by (subst doGetWithRetry_loop.simps)
    (simp add: attempt_error_def response_body_def split: sum.splits prod.splits option.splits)

lemma doGetWithRetry_cases:
  assumes "NewRequestWithContext rt url = Inr req"
  shows "doGetWithRetry rt url =
     (case attempt_error (client_Do rt req 0) of
        None \<Rightarrow> ((Some (response_body (client_Do rt req 0)), None), [HttpDo req])
      | Some e0 \<Rightarrow>
         (case attempt_error (client_Do rt req 1) of
            None \<Rightarrow> ((Some (response_body (client_Do rt req 1)), None),
                      [HttpDo req, Sleep 500, HttpDo req])
          | Some e1 \<Rightarrow>
             (case attempt_error (client_Do rt req 2) of
                None \<Rightarrow> ((Some (response_body (client_Do rt req 2)), None),
                          [HttpDo req, Sleep 500, HttpDo req, Sleep 500, HttpDo req])
              | Some e2 \<Rightarrow> ((None, Some e2),
                          [HttpDo req, Sleep 500, HttpDo req, Sleep 500, HttpDo req, Sleep 500]))))"
proof -
  have s2: "doGetWithRetry_loop rt url 2 l =
     (case attempt_error (client_Do rt req 2) of
        None \<Rightarrow> ((Some (response_body (client_Do rt req 2)), None), [HttpDo req])
      | Some e2 \<Rightarrow> ((None, Some e2), [HttpDo req, Sleep 500]))" for l
    using loop_step [OF assms, of 2 l] by (simp add: loop_exit split: option.splits)
  have s1: "doGetWithRetry_loop rt url 1 l =
     (case attempt_error (client_Do rt req 1) of
        None \<Rightarrow> ((Some (response_body (client_Do rt req 1)), None), [HttpDo req])
      | Some e1 \<Rightarrow>
         (fst (doGetWithRetry_loop rt url 2 (Some e1)),
          HttpDo req # Sleep 500 # snd (doGetWithRetry_loop rt url 2 (Some e1))))" for l
    using loop_step [OF assms, of 1 l] by (simp add: numeral_2_eq_2 split: option.splits)
  have s0: "doGetWithRetry rt url =
     (case attempt_error (client_Do rt req 0) of
        None \<Rightarrow> ((Some (response_body (client_Do rt req 0)), None), [HttpDo req])
      | Some e0 \<Rightarrow>
         (fst (doGetWithRetry_loop rt url 1 (Some e0)),
          HttpDo req # Sleep 500 # snd (doGetWithRetry_loop rt url 1 (Some e0))))"
    using loop_step [OF assms, of 0 None] by (simp add: doGetWithRetry_def split: option.splits)
  show ?thesis
    unfolding s0 s1 s2 by (simp split: option.splits)
qed

lemma attempt_failed_iff_error: "attempt_failed r \<longleftrightarrow> attempt_error r \<noteq> None"
  by (simp add: attempt_failed_def attempt_error_def split: sum.splits)

lemma attempts_Cons:
  "attempts (HttpDo req # evs) = Suc (attempts evs)" "attempts (Sleep ms # evs) = attempts evs"
  "attempts [] = 0"
  by (simp_all add: attempts_def)

text \<open>
  Claim C4. When the request can be constructed, \<open>doGetWithRetry\<close> makes at most 3
  attempts; if all three attempts fail (a transport error, a rejected status or a failed
  body read) it makes exactly 3 attempts and returns nil bytes with the error of the
  last attempt.
\<close>

theorem doGetWithRetry_retry_bound:
  assumes "NewRequestWithContext rt url = Inr req"
  shows "attempts (snd (doGetWithRetry rt url)) \<le> 3
    \<and> ((\<forall>i<3. attempt_failed (client_Do rt req i)) \<longrightarrow>
          attempts (snd (doGetWithRetry rt url)) = 3
          \<and> fst (doGetWithRetry rt url) = (None, attempt_error (client_Do rt req 2)))"
proof -
  have three: "(\<forall>i<3. P i) \<longleftrightarrow> P 0 \<and> P 1 \<and> P (2::nat)" for P
    by (auto simp: numeral_3_eq_3 less_Suc_eq numeral_2_eq_2)
  show ?thesis
    unfolding three doGetWithRetry_cases [OF assms] attempt_failed_iff_error
    by (auto simp: attempts_Cons split: option.splits)
qed

theorem doGetWithRetry_retry_bound_witness:
  "attempts (snd (doGetWithRetry (example_runtime all_keys_set always_refused) ''http://a'')) = 3
   \<and> fst (doGetWithRetry (example_runtime all_keys_set always_refused) ''http://a'')
       = (None, Some (libError ''connection refused, attempt 2''))"
  using doGetWithRetry_retry_bound
    [of "example_runtime all_keys_set always_refused" "''http://a''" "Request ''http://a''"]
  by (simp add: example_runtime_def always_refused_def attempt_failed_def attempt_error_def)

text \<open>
  Claim C10. If constructing the outbound request fails, \<open>doGetWithRetry\<close> returns nil
  bytes and that error at once: no attempt is made and no delay is taken.
\<close>

theorem doGetWithRetry_request_error:
  assumes "NewRequestWithContext rt url = Inl err"
  shows "doGetWithRetry rt url = ((None, Some err), [])"
  using assms by (simp add: doGetWithRetry_def loop_request_error)

theorem doGetWithRetry_request_error_witness:
  "doGetWithRetry (example_runtime all_keys_set (always_status 200 ''ok'')) [CHR ''a'', CHR 0x0A]
     = ((None, Some (libError ''net/url: invalid control character in URL'')), [])"
  using doGetWithRetry_request_error
    [of "example_runtime all_keys_set (always_status 200 ''ok'')" "[CHR ''a'', CHR 0x0A]"
      "libError ''net/url: invalid control character in URL''"]
  by (simp add: example_runtime_def)

text \<open>
  Claim C5, as stated, says that every response with a 2xx status is returned as a
  success without retry. The code compares the status with 200 only: a response with
  status 204 is retried, and after three such responses the call fails.
\<close>

theorem doGetWithRetry_2xx_counterexample:
  "client_Do (example_runtime all_keys_set (always_status 204 ''done'')) (Request ''http://a'') 0
     = Inr \<lparr> StatusCode = 204, ReadAll = (''done'', None) \<rparr>
   \<and> (200 :: int) \<le> 204 \<and> (204 :: int) < 300
   \<and> doGetWithRetry (example_runtime all_keys_set (always_status 204 ''done'')) ''http://a''
     = ((None, Some (errorString ''status 204: done'')),
        [HttpDo (Request ''http://a''), Sleep 500, HttpDo (Request ''http://a''), Sleep 500,
         HttpDo (Request ''http://a''), Sleep 500])"
proof -
  have "NewRequestWithContext (example_runtime all_keys_set (always_status 204 ''done''))
      ''http://a'' = Inr (Request ''http://a'')"
    by (simp add: example_runtime_def)
  from doGetWithRetry_cases [OF this] show ?thesis
    by (simp add: example_runtime_def always_status_def attempt_error_def itoa_def digits.simps)
qed

text \<open>
  Claim C5, amended. Let attempt \<open>i\<close> be reached, that is, all earlier attempts failed.
  The attempt fails exactly when it is not a response with status 200 whose body was read
  without error: a transport error, any status other than 200, or a failed body read.
  If it does not fail, its body is returned at once, with no delay and no further
  attempt. If it fails, the delay of 500 ms follows, and then the next attempt unless
  this was the third.
\<close>

theorem doGetWithRetry_attempt_outcome:
  assumes "NewRequestWithContext rt url = Inr req"
    and "i < 3" and "\<forall>j<i. attempt_failed (client_Do rt req j)"
  shows "(attempt_failed (client_Do rt req i) \<longleftrightarrow>
            \<not> (\<exists>resp body. client_Do rt req i = Inr resp \<and> StatusCode resp = 200
                  \<and> ReadAll resp = (body, None)))
    \<and> (\<not> attempt_failed (client_Do rt req i) \<longrightarrow>
          doGetWithRetry rt url =
            ((Some (response_body (client_Do rt req i)), None),
             concat (replicate i [HttpDo req, Sleep 500]) @ [HttpDo req]))
    \<and> (attempt_failed (client_Do rt req i) \<longrightarrow>
          prefix (concat (replicate (Suc i) [HttpDo req, Sleep 500])) (snd (doGetWithRetry rt url))
          \<and> (i < 2 \<longrightarrow> prefix (concat (replicate (Suc i) [HttpDo req, Sleep 500]) @ [HttpDo req])
                          (snd (doGetWithRetry rt url))))"
proof -
  have iff: "attempt_failed r \<longleftrightarrow>
      \<not> (\<exists>resp body. r = Inr resp \<and> StatusCode resp = 200 \<and> ReadAll resp = (body, None))" for r
  proof (cases r)
    case (Inl err)
    then show ?thesis by (simp add: attempt_failed_def)
  next
    case (Inr resp)
    then show ?thesis
      by (cases "ReadAll resp") (auto simp: attempt_failed_def)
  qed
  consider "i = 0" | "i = 1" | "i = 2"
    using assms(2) by linarith
  then have rest: "(\<not> attempt_failed (client_Do rt req i) \<longrightarrow>
          doGetWithRetry rt url =
            ((Some (response_body (client_Do rt req i)), None),
             concat (replicate i [HttpDo req, Sleep 500]) @ [HttpDo req]))
    \<and> (attempt_failed (client_Do rt req i) \<longrightarrow>
          prefix (concat (replicate (Suc i) [HttpDo req, Sleep 500])) (snd (doGetWithRetry rt url))
          \<and> (i < 2 \<longrightarrow> prefix (concat (replicate (Suc i) [HttpDo req, Sleep 500]) @ [HttpDo req])
                          (snd (doGetWithRetry rt url))))"
  proof cases
    case 1
    then show ?thesis
      unfolding doGetWithRetry_cases [OF assms(1)] attempt_failed_iff_error
      by (auto split: option.splits)
  next
    case 2
    with assms(3) have "attempt_failed (client_Do rt req 0)" by simp
    with 2 show ?thesis
      unfolding doGetWithRetry_cases [OF assms(1)] attempt_failed_iff_error
      by (auto split: option.splits)
  next
    case 3
    with assms(3) have "attempt_failed (client_Do rt req 0)" "attempt_failed (client_Do rt req 1)"
      by simp_all
    with 3 show ?thesis
      unfolding doGetWithRetry_cases [OF assms(1)] attempt_failed_iff_error
      by (auto simp: numeral_2_eq_2 split: option.splits)
  qed
  show ?thesis
    using iff [of "client_Do rt req i"] rest by blast
qed

theorem doGetWithRetry_attempt_outcome_witness:
  "doGetWithRetry (example_runtime all_keys_set (fail_then_ok 1)) ''http://a''
     = ((Some ''ok'', None),
        [HttpDo (Request ''http://a''), Sleep 500, HttpDo (Request ''http://a'')])
   \<and> prefix [HttpDo (Request ''http://a''), Sleep 500, HttpDo (Request ''http://a'')]
        (snd (doGetWithRetry (example_runtime all_keys_set (fail_then_ok 2)) ''http://a''))"
  using
    doGetWithRetry_attempt_outcome [of "example_runtime all_keys_set (fail_then_ok 1)"
      "''http://a''" "Request ''http://a''" 1]
    doGetWithRetry_attempt_outcome [of "example_runtime all_keys_set (fail_then_ok 2)"
      "''http://a''" "Request ''http://a''" 0]
  by (simp add: example_runtime_def fail_then_ok_def attempt_failed_def response_body_def)

section \<open>Properties of the source adapters\<close>

text \<open>
  Claim C6. In each of the four adapters, a non-positive limit or a missing credential
  makes the fetch return a configuration error at once: the effect list is empty, so no
  request is sent, nothing is retried and no delay is taken.
\<close>

theorem adapters_reject_before_io:
  "(MarketauxLimit cfg \<le> 0 \<or> Getenv rt ''MARKETAUX_API_KEY'' = [] \<longrightarrow>
      fetchFromMarketaux rt company cfg =
        (Inl (errorString (if MarketauxLimit cfg \<le> 0 then ''marketaux limit reached''
                           else ''MARKETAUX_API_KEY not set'')), []))
   \<and> (FinnhubLimit cfg \<le> 0 \<or> Getenv rt ''FINNHUB_API_KEY'' = [] \<longrightarrow>
      fetchFromFinnhub rt company cfg =
        (Inl (errorString (if FinnhubLimit cfg \<le> 0 then ''finnhub limit reached''
                           else ''FINNHUB_API_KEY not set'')), []))
   \<and> (EODHDLimit cfg \<le> 0 \<or> Getenv rt ''EODHD_API_KEY'' = [] \<longrightarrow>
      fetchFromEODHD rt company cfg =
        (Inl (errorString (if EODHDLimit cfg \<le> 0 then ''eodhd limit reached''
                           else ''EODHD_API_KEY not set'')), []))
   \<and> (GoogleCSELimit cfg \<le> 0 \<or> Getenv rt ''GOOGLE_CSE_API_KEY'' = []
        \<or> Getenv rt ''GOOGLE_CSE_ID'' = [] \<longrightarrow>
      fetchFromGoogleCSE rt company cfg =
        (Inl (errorString (if GoogleCSELimit cfg \<le> 0 then ''google cse limit reached''
                           else ''GOOGLE_CSE_API_KEY or GOOGLE_CSE_ID not set'')), []))"
  by (simp add: fetchFromMarketaux_def fetchFromFinnhub_def fetchFromEODHD_def
      fetchFromGoogleCSE_def Let_def)

theorem adapters_reject_before_io_witness:
  "fetchFromMarketaux (example_runtime no_keys_set (always_status 200 ''ok'')) ''ACME'' config
     = (Inl (errorString ''MARKETAUX_API_KEY not set''), [])
   \<and> fetchFromFinnhub (example_runtime all_keys_set (always_status 200 ''ok'')) ''ACME''
        (config\<lparr> FinnhubLimit := 0 \<rparr>)
     = (Inl (errorString ''finnhub limit reached''), [])
   \<and> fetchFromEODHD (example_runtime all_keys_set (always_status 200 ''ok'')) ''ACME''
        (config\<lparr> EODHDLimit := - 1 \<rparr>)
     = (Inl (errorString ''eodhd limit reached''), [])
   \<and> fetchFromGoogleCSE (example_runtime no_keys_set (always_status 200 ''ok'')) ''ACME'' config
     = (Inl (errorString ''GOOGLE_CSE_API_KEY or GOOGLE_CSE_ID not set''), [])"
  using
    adapters_reject_before_io [of config "example_runtime no_keys_set (always_status 200 ''ok'')"
      "''ACME''"]
    adapters_reject_before_io [of "config\<lparr> FinnhubLimit := 0 \<rparr>"
      "example_runtime all_keys_set (always_status 200 ''ok'')" "''ACME''"]
    adapters_reject_before_io [of "config\<lparr> EODHDLimit := - 1 \<rparr>"
      "example_runtime all_keys_set (always_status 200 ''ok'')" "''ACME''"]
  by (simp add: example_runtime_def no_keys_set_def all_keys_set_def config_def)

subsection \<open>A decoded response is mapped record by record\<close>

lemma fetchFromMarketaux_decoded:
  assumes "0 < MarketauxLimit cfg" and "Getenv rt ''MARKETAUX_API_KEY'' \<noteq> []"
    and "doGetWithRetry rt (marketaux_url company (Getenv rt ''MARKETAUX_API_KEY''))
           = ((body, None), evs)"
    and "Unmarshal_Marketaux rt (bytes_of body) = Inr items"
  shows "fetchFromMarketaux rt company cfg = (Inr (map (marketaux_article rt) items), evs)"
  using assms by (simp add: fetchFromMarketaux_def Let_def)

lemma fetchFromEODHD_decoded:
  assumes "0 < EODHDLimit cfg" and "Getenv rt ''EODHD_API_KEY'' \<noteq> []"
    and "doGetWithRetry rt (eodhd_url (Getenv rt ''EODHD_API_KEY'') company (EODHDLimit cfg))
           = ((body, None), evs)"
    and "Unmarshal_EODHD rt (bytes_of body) = Inr items"
  shows "fetchFromEODHD rt company cfg = (Inr (map (eodhd_article rt) items), evs)"
  using assms by (simp add: fetchFromEODHD_def Let_def)

lemma fetchFromGoogleCSE_decoded:
  assumes "0 < GoogleCSELimit cfg" and "Getenv rt ''GOOGLE_CSE_API_KEY'' \<noteq> []"
    and "Getenv rt ''GOOGLE_CSE_ID'' \<noteq> []"
    and "doGetWithRetry rt (google_url company (Getenv rt ''GOOGLE_CSE_ID'')
           (Getenv rt ''GOOGLE_CSE_API_KEY'') (GoogleCSELimit cfg)) = ((body, None), evs)"
    and "Unmarshal_GoogleCSE rt (bytes_of body) = Inr items"
  shows "fetchFromGoogleCSE rt company cfg = (Inr (map (google_article rt) items), evs)"
  using assms by (simp add: fetchFromGoogleCSE_def Let_def)

text \<open>
  Claim C9. When an adapter has received a body that decodes to a list of items, it
  returns success with one article per item, in order, with the item's fields; an item
  whose publication time does not parse yields an article with the zero timestamp. So an
  unparseable timestamp neither fails the fetch nor drops the record. This covers the
  three adapters that parse a time string (Marketaux, EODHD, Google CSE); Finnhub
  receives a Unix time and parses nothing.
\<close>

theorem unparseable_time_keeps_record:
  "(0 < MarketauxLimit cfg \<and> Getenv rt ''MARKETAUX_API_KEY'' \<noteq> []
      \<and> doGetWithRetry rt (marketaux_url company (Getenv rt ''MARKETAUX_API_KEY''))
           = ((body, None), evs)
      \<and> Unmarshal_Marketaux rt (bytes_of body) = Inr mx \<longrightarrow>
      (\<exists>articles. fetchFromMarketaux rt company cfg = (Inr articles, evs)
         \<and> length articles = length mx
         \<and> (\<forall>i<length mx.
               Title (articles ! i) = mx_Title (mx ! i) \<and> URL (articles ! i) = mx_URL (mx ! i)
               \<and> Source (articles ! i) = mx_Source (mx ! i)
               \<and> Description (articles ! i) = mx_Description (mx ! i)
               \<and> (\<forall>err. time_Parse_RFC3339 rt (mx_PublishedAt (mx ! i)) = Inl err \<longrightarrow>
                     PublishedAt (articles ! i) = zero_Time))))
   \<and> (0 < EODHDLimit cfg \<and> Getenv rt ''EODHD_API_KEY'' \<noteq> []
      \<and> doGetWithRetry rt (eodhd_url (Getenv rt ''EODHD_API_KEY'') company (EODHDLimit cfg))
           = ((body, None), evs)
      \<and> Unmarshal_EODHD rt (bytes_of body) = Inr eod \<longrightarrow>
      (\<exists>articles. fetchFromEODHD rt company cfg = (Inr articles, evs)
         \<and> length articles = length eod
         \<and> (\<forall>i<length eod.
               Title (articles ! i) = eod_Title (eod ! i) \<and> URL (articles ! i) = eod_URL (eod ! i)
               \<and> Source (articles ! i) = eod_Source (eod ! i)
               \<and> (\<forall>err. time_Parse_RFC3339 rt (eod_PubDate (eod ! i)) = Inl err \<longrightarrow>
                     PublishedAt (articles ! i) = zero_Time))))
   \<and> (0 < GoogleCSELimit cfg \<and> Getenv rt ''GOOGLE_CSE_API_KEY'' \<noteq> []
      \<and> Getenv rt ''GOOGLE_CSE_ID'' \<noteq> []
      \<and> doGetWithRetry rt (google_url company (Getenv rt ''GOOGLE_CSE_ID'')
           (Getenv rt ''GOOGLE_CSE_API_KEY'') (GoogleCSELimit cfg)) = ((body, None), evs)
      \<and> Unmarshal_GoogleCSE rt (bytes_of body) = Inr cse \<longrightarrow>
      (\<exists>articles. fetchFromGoogleCSE rt company cfg = (Inr articles, evs)
         \<and> length articles = length cse
         \<and> (\<forall>i<length cse.
               Title (articles ! i) = cse_Title (cse ! i) \<and> URL (articles ! i) = cse_Link (cse ! i)
               \<and> Source (articles ! i) = cse_DisplayLink (cse ! i)
               \<and> Description (articles ! i) = cse_Snippet (cse ! i)
               \<and> (\<forall>pt rest err. cse_Metatags (cse ! i) = pt # rest
                     \<and> time_Parse_RFC3339 rt pt = Inl err \<longrightarrow>
                     PublishedAt (articles ! i) = zero_Time))))"
proof (intro conjI impI)
  assume "0 < MarketauxLimit cfg \<and> Getenv rt ''MARKETAUX_API_KEY'' \<noteq> []
      \<and> doGetWithRetry rt (marketaux_url company (Getenv rt ''MARKETAUX_API_KEY''))
           = ((body, None), evs)
      \<and> Unmarshal_Marketaux rt (bytes_of body) = Inr mx"
  then have "fetchFromMarketaux rt company cfg = (Inr (map (marketaux_article rt) mx), evs)"
    by (simp add: fetchFromMarketaux_decoded)
  then show "\<exists>articles. fetchFromMarketaux rt company cfg = (Inr articles, evs)
         \<and> length articles = length mx
         \<and> (\<forall>i<length mx.
               Title (articles ! i) = mx_Title (mx ! i) \<and> URL (articles ! i) = mx_URL (mx ! i)
               \<and> Source (articles ! i) = mx_Source (mx ! i)
               \<and> Description (articles ! i) = mx_Description (mx ! i)
               \<and> (\<forall>err. time_Parse_RFC3339 rt (mx_PublishedAt (mx ! i)) = Inl err \<longrightarrow>
                     PublishedAt (articles ! i) = zero_Time))"
    by (auto simp: marketaux_article_def parse_or_zero_def)
next
  assume "0 < EODHDLimit cfg \<and> Getenv rt ''EODHD_API_KEY'' \<noteq> []
      \<and> doGetWithRetry rt (eodhd_url (Getenv rt ''EODHD_API_KEY'') company (EODHDLimit cfg))
           = ((body, None), evs)
      \<and> Unmarshal_EODHD rt (bytes_of body) = Inr eod"
  then have "fetchFromEODHD rt company cfg = (Inr (map (eodhd_article rt) eod), evs)"
    by (simp add: fetchFromEODHD_decoded)
  then show "\<exists>articles. fetchFromEODHD rt company cfg = (Inr articles, evs)
         \<and> length articles = length eod
         \<and> (\<forall>i<length eod.
               Title (articles ! i) = eod_Title (eod ! i) \<and> URL (articles ! i) = eod_URL (eod ! i)
               \<and> Source (articles ! i) = eod_Source (eod ! i)
               \<and> (\<forall>err. time_Parse_RFC3339 rt (eod_PubDate (eod ! i)) = Inl err \<longrightarrow>
                     PublishedAt (articles ! i) = zero_Time))"
    by (auto simp: eodhd_article_def parse_or_zero_def)
next
  assume "0 < GoogleCSELimit cfg \<and> Getenv rt ''GOOGLE_CSE_API_KEY'' \<noteq> []
      \<and> Getenv rt ''GOOGLE_CSE_ID'' \<noteq> []
      \<and> doGetWithRetry rt (google_url company (Getenv rt ''GOOGLE_CSE_ID'')
           (Getenv rt ''GOOGLE_CSE_API_KEY'') (GoogleCSELimit cfg)) = ((body, None), evs)
      \<and> Unmarshal_GoogleCSE rt (bytes_of body) = Inr cse"
  then have "fetchFromGoogleCSE rt company cfg = (Inr (map (google_article rt) cse), evs)"
    by (simp add: fetchFromGoogleCSE_decoded)
  then show "\<exists>articles. fetchFromGoogleCSE rt company cfg = (Inr articles, evs)
         \<and> length articles = length cse
         \<and> (\<forall>i<length cse.
               Title (articles ! i) = cse_Title (cse ! i) \<and> URL (articles ! i) = cse_Link (cse ! i)
               \<and> Source (articles ! i) = cse_DisplayLink (cse ! i)
               \<and> Description (articles ! i) = cse_Snippet (cse ! i)
               \<and> (\<forall>pt rest err. cse_Metatags (cse ! i) = pt # rest
                     \<and> time_Parse_RFC3339 rt pt = Inl err \<longrightarrow>
                     PublishedAt (articles ! i) = zero_Time))"
    by (auto simp: google_article_def)
qed

lemma example_ok_get:
  assumes "CHR 0x0A \<notin> set url"
  shows "doGetWithRetry example_ok url = ((Some ''ok'', None), [HttpDo (Request url)])"
proof -
  have "NewRequestWithContext example_ok url = Inr (Request url)"
    using assms by (simp add: example_ok_def example_runtime_def)
  from doGetWithRetry_cases [OF this] show ?thesis
    by (simp add: example_ok_def example_runtime_def always_status_def attempt_error_def
        response_body_def)
qed

theorem unparseable_time_keeps_record_witness:
  "fst (fetchFromMarketaux example_ok ''ACME'' config) =
     Inr [\<lparr> Source = ''wire'', Title = ''T1'', Description = ''d1'', URL = ''u1'',
            PublishedAt = Time 63839761445 0 \<rparr>,
          \<lparr> Source = ''wire'', Title = ''T2'', Description = ''d2'', URL = ''u2'',
            PublishedAt = zero_Time \<rparr>]
   \<and> fst (fetchFromEODHD example_ok ''ACME'' config) =
     Inr [\<lparr> Source = ''wire'', Title = ''T1'', Description = [], URL = ''u1'',
            PublishedAt = zero_Time \<rparr>,
          \<lparr> Source = ''wire'', Title = ''T2'', Description = [], URL = ''u3'',
            PublishedAt = Time 63839761445 0 \<rparr>]
   \<and> fst (fetchFromGoogleCSE example_ok ''ACME'' config) =
     Inr [\<lparr> Source = ''example.com'', Title = ''T1'', Description = ''s1'', URL = ''u1'',
            PublishedAt = zero_Time \<rparr>,
          \<lparr> Source = ''example.com'', Title = ''T3'', Description = ''s3'', URL = ''u4'',
            PublishedAt = zero_Time \<rparr>]"
proof -
  let ?mx = "[marketaux_item ''T1'' ''d1'' ''u1'' ''wire'' ''2024-01-02T03:04:05Z'',
              marketaux_item ''T2'' ''d2'' ''u2'' ''wire'' ''yesterday'']"
  let ?eod = "[eodhd_item ''T1'' ''u1'' ''wire'' ''02/01/2024'',
               eodhd_item ''T2'' ''u3'' ''wire'' ''2024-01-02T03:04:05Z'']"
  let ?cse = "[google_item ''T1'' ''s1'' ''u1'' ''example.com'' [] [''Jan 2, 2024''],
               google_item ''T3'' ''s3'' ''u4'' ''example.com'' [] []]"
  have env: "Getenv example_ok k = ''secret''" for k
    by (simp add: example_ok_def example_runtime_def all_keys_set_def)
  have lim: "MarketauxLimit config = 100" "EODHDLimit config = 20" "GoogleCSELimit config = 50"
    by (simp_all add: config_def)
  have dec: "Unmarshal_Marketaux example_ok (bytes_of (Some ''ok'')) = Inr ?mx"
    "Unmarshal_EODHD example_ok (bytes_of (Some ''ok'')) = Inr ?eod"
    "Unmarshal_GoogleCSE example_ok (bytes_of (Some ''ok'')) = Inr ?cse"
    by (simp_all add: example_ok_def example_runtime_def bytes_of_def)
  have get: "doGetWithRetry example_ok (marketaux_url ''ACME'' ''secret'')
        = ((Some ''ok'', None), [HttpDo (Request (marketaux_url ''ACME'' ''secret''))])"
    "doGetWithRetry example_ok (eodhd_url ''secret'' ''ACME'' 20)
        = ((Some ''ok'', None), [HttpDo (Request (eodhd_url ''secret'' ''ACME'' 20))])"
    "doGetWithRetry example_ok (google_url ''ACME'' ''secret'' ''secret'' 50)
        = ((Some ''ok'', None), [HttpDo (Request (google_url ''ACME'' ''secret'' ''secret'' 50))])"
    by (rule example_ok_get,
        simp add: marketaux_url_def eodhd_url_def google_url_def itoa_def digits.simps)+
  have parse: "time_Parse_RFC3339 example_ok s =
      (if s = ''2024-01-02T03:04:05Z'' then Inr (Time 63839761445 0)
       else Inl (libError ''parsing time: cannot parse''))" for s
    by (simp add: example_ok_def example_runtime_def)
  from unparseable_time_keeps_record [of config example_ok "''ACME''" "Some ''ok''"
      "[HttpDo (Request (marketaux_url ''ACME'' ''secret''))]" ?mx ?eod ?cse]
  obtain a1 where a1: "fetchFromMarketaux example_ok ''ACME'' config
        = (Inr a1, [HttpDo (Request (marketaux_url ''ACME'' ''secret''))])"
      "length a1 = 2" "PublishedAt (a1 ! 1) = zero_Time"
    by (auto simp: env lim dec get parse)
  from unparseable_time_keeps_record [of config example_ok "''ACME''" "Some ''ok''"
      "[HttpDo (Request (eodhd_url ''secret'' ''ACME'' 20))]" ?mx ?eod ?cse]
  obtain a2 where a2: "fetchFromEODHD example_ok ''ACME'' config
        = (Inr a2, [HttpDo (Request (eodhd_url ''secret'' ''ACME'' 20))])"
      "length a2 = 2" "PublishedAt (a2 ! 0) = zero_Time"
    by (auto simp: env lim dec get parse)
  from unparseable_time_keeps_record [of config example_ok "''ACME''" "Some ''ok''"
      "[HttpDo (Request (google_url ''ACME'' ''secret'' ''secret'' 50))]" ?mx ?eod ?cse]
  obtain a3 where a3: "fetchFromGoogleCSE example_ok ''ACME'' config
        = (Inr a3, [HttpDo (Request (google_url ''ACME'' ''secret'' ''secret'' 50))])"
      "length a3 = 2" "PublishedAt (a3 ! 0) = zero_Time"
    by (auto simp: env lim dec get parse)
  have r1: "fst (fetchFromMarketaux example_ok ''ACME'' config) = Inr (map (marketaux_article example_ok) ?mx)"
    by (simp add: fetchFromMarketaux_decoded [OF _ _ _ dec(1)] env lim get)
  have r2: "fst (fetchFromEODHD example_ok ''ACME'' config) = Inr (map (eodhd_article example_ok) ?eod)"
    by (simp add: fetchFromEODHD_decoded [OF _ _ _ dec(2)] env lim get)
  have r3: "fst (fetchFromGoogleCSE example_ok ''ACME'' config) = Inr (map (google_article example_ok) ?cse)"
    by (simp add: fetchFromGoogleCSE_decoded [OF _ _ _ _ dec(3)] env lim get)
  show ?thesis
    using a1 a2 a3 unfolding r1 r2 r3
    by (simp add: marketaux_article_def eodhd_article_def google_article_def parse_or_zero_def parse)
qed

section \<open>Properties of the orchestrator\<close>

subsection \<open>The state at the barrier\<close>

lemma goroutine_fields:
  "allArticles (goroutine rt company c f st) = allArticles st @ fetched_articles rt company c f"
  "errs (goroutine rt company c f st) = errs st @ fetch_errors rt company c f"
  "calls (goroutine rt company c f st) = calls st @ [(name f, snd (fetch f rt company c))]"
  "newsFetchCount (goroutine rt company c f st) = inc (name f) (newsFetchCount st)"
  "newsFetchDuration (goroutine rt company c f st) = inc (name f) (newsFetchDuration st)"
  "newsFetchErrors (goroutine rt company c f st) =
     (if isl (fst (fetch f rt company c)) then inc (name f) (newsFetchErrors st)
      else newsFetchErrors st)"
  by (simp_all add: goroutine_def fetched_articles_def fetch_errors_def Let_def
      split: prod.splits sum.splits)

lemma foldl_goroutine_lists:
  "allArticles (foldl (\<lambda>st f. goroutine rt company c f st) st fs) =
     allArticles st @ concat (map (fetched_articles rt company c) fs)"
  "errs (foldl (\<lambda>st f. goroutine rt company c f st) st fs) =
     errs st @ concat (map (fetch_errors rt company c) fs)"
  "calls (foldl (\<lambda>st f. goroutine rt company c f st) st fs) =
     calls st @ map (\<lambda>f. (name f, snd (fetch f rt company c))) fs"
  by (induction fs arbitrary: st) (simp_all add: goroutine_fields)

lemma foldl_goroutine_counters:
  "newsFetchCount (foldl (\<lambda>st f. goroutine rt company c f st) st fs) n =
     newsFetchCount st n + length (filter (\<lambda>f. name f = n) fs)"
  "newsFetchDuration (foldl (\<lambda>st f. goroutine rt company c f st) st fs) n =
     newsFetchDuration st n + length (filter (\<lambda>f. name f = n) fs)"
  "newsFetchErrors (foldl (\<lambda>st f. goroutine rt company c f st) st fs) n =
     newsFetchErrors st n
       + length (filter (\<lambda>f. name f = n \<and> isl (fst (fetch f rt company c))) fs)"
  by (induction fs arbitrary: st) (simp_all add: goroutine_fields inc_def)

lemma barrier_lists:
  assumes "c = (case cfg of None \<Rightarrow> config | Some x \<Rightarrow> x)"
  shows "allArticles (barrier rt sched m company cfg) =
      concat (map (fetched_articles rt company c) (sched (dispatched c)))"
    and "errs (barrier rt sched m company cfg) =
      concat (map (fetch_errors rt company c) (sched (dispatched c)))"
    and "calls (barrier rt sched m company cfg) =
      map (\<lambda>f. (name f, snd (fetch f rt company c))) (sched (dispatched c))"
  using assms by (simp_all add: barrier_def Let_def foldl_goroutine_lists)

lemma barrier_counters:
  assumes "c = (case cfg of None \<Rightarrow> config | Some x \<Rightarrow> x)"
  shows "newsFetchCount (barrier rt sched m company cfg) n =
      newsFetchCount m n + length (filter (\<lambda>f. name f = n) (sched (dispatched c)))"
    and "newsFetchDuration (barrier rt sched m company cfg) n =
      newsFetchDuration m n + length (filter (\<lambda>f. name f = n) (sched (dispatched c)))"
    and "newsFetchErrors (barrier rt sched m company cfg) n =
      newsFetchErrors m n
        + length (filter (\<lambda>f. name f = n \<and> isl (fst (fetch f rt company c)))
            (sched (dispatched c)))"
  using assms by (simp_all add: barrier_def Let_def foldl_goroutine_counters)

lemma fetcher_names_inj:
  assumes "f \<in> set (fetchers c)" and "g \<in> set (fetchers c)" and "name f = name g"
  shows "f = g"
proof -
  have "distinct (map name (fetchers c))"
    by (simp add: fetchers_def)
  then have "inj_on name (set (fetchers c))"
    by (simp add: distinct_map)
  with assms show ?thesis
    by (auto dest: inj_onD)
qed

lemma dispatched_iff:
  "f \<in> set (dispatched c) \<longleftrightarrow> f \<in> set (fetchers c) \<and> use f \<and> \<not> skip f \<and> 0 < limit f"
  by (auto simp: dispatched_def skipped_def)

lemma sublist_concat_member:
  assumes "f \<in> set fs"
  shows "sublist (g f) (concat (map g fs))"
proof -
  from assms obtain pre post where "fs = pre @ f # post"
    by (auto dest: split_list)
  then have "concat (map g fs) = concat (map g pre) @ g f @ concat (map g post)"
    by simp
  then show ?thesis
    by (metis sublist_appendI)
qed

lemma dedup_represents:
  assumes "a \<in> set xs"
  shows "\<exists>b\<in>set (deduplicateArticles h xs). dedup_key h b = dedup_key h a"
proof -
  have "dedup_key h a \<in> dedup_key h ` set (firsts (dedup_key h) {} xs)"
    using assms by (simp add: firsts_keys)
  then show ?thesis
    by (auto simp: deduplicateArticles_firsts)
qed

lemma filter_name_single:
  assumes "distinct (map name fs)" and "f \<in> set fs"
  shows "filter (\<lambda>g. name g = name f) fs = [f]"
  using assms
proof (induction fs)
  case Nil
  then show ?case by simp
next
  case (Cons g fs)
  show ?case
  proof (cases "g = f")
    case True
    have "name f \<notin> name ` set fs"
      using Cons.prems(1) True by simp
    then have "\<forall>x\<in>set fs. name x \<noteq> name f"
      by (metis imageI)
    then have "filter (\<lambda>g. name g = name f) fs = []"
      by (simp add: filter_empty_conv)
    with True show ?thesis by simp
  next
    case False
    with Cons.prems have "f \<in> set fs" and "name g \<noteq> name f"
      by auto
    with Cons show ?thesis by simp
  qed
qed

lemma length_filter_perm:
  assumes "mset xs = mset ys"
  shows "length (filter P xs) = length (filter P ys)"
proof -
  have "mset (filter P xs) = mset (filter P ys)"
    using assms by simp
  then show ?thesis
    by (rule mset_eq_length)
qed

lemma dispatched_names_distinct: "distinct (map name (dispatched c))"
  unfolding dispatched_def by (rule distinct_map_filter) (simp add: fetchers_def)

subsection \<open>The example run\<close>

lemma example_down_env: "Getenv example_down k = ''secret''"
  by (simp add: example_down_def example_runtime_def all_keys_set_def)

lemma example_down_get:
  assumes "CHR 0x0A \<notin> set url" and "take 18 url \<noteq> ''https://finnhub.io''"
  shows "doGetWithRetry example_down url = ((Some ''ok'', None), [HttpDo (Request url)])"
proof -
  have "NewRequestWithContext example_down url = Inr (Request url)"
    using assms(1) by (simp add: example_down_def example_runtime_def)
  from doGetWithRetry_cases [OF this] show ?thesis
    using assms(2)
    by (simp add: example_down_def example_runtime_def finnhub_down_def always_status_def
        attempt_error_def response_body_def)
qed

lemma example_down_parse:
  "time_Parse_RFC3339 example_down s =
     (if s = ''2024-01-02T03:04:05Z'' then Inr (Time 63839761445 0)
      else Inl (libError ''parsing time: cannot parse''))"
  by (simp add: example_down_def example_runtime_def)

lemma example_down_marketaux:
  "fst (fetchFromMarketaux example_down ''ACME'' example_config) =
     Inr [\<lparr> Source = ''wire'', Title = ''T1'', Description = ''d1'', URL = ''u1'',
            PublishedAt = Time 63839761445 0 \<rparr>,
          \<lparr> Source = ''wire'', Title = ''T2'', Description = ''d2'', URL = ''u2'',
            PublishedAt = zero_Time \<rparr>]"
proof -
  have get: "doGetWithRetry example_down (marketaux_url ''ACME'' (Getenv example_down ''MARKETAUX_API_KEY''))
      = ((Some ''ok'', None), [HttpDo (Request (marketaux_url ''ACME'' ''secret''))])"
    unfolding example_down_env by (rule example_down_get) (simp_all add: marketaux_url_def)
  have dec: "Unmarshal_Marketaux example_down (bytes_of (Some ''ok'')) =
      Inr [marketaux_item ''T1'' ''d1'' ''u1'' ''wire'' ''2024-01-02T03:04:05Z'',
           marketaux_item ''T2'' ''d2'' ''u2'' ''wire'' ''yesterday'']"
    by (simp add: example_down_def example_runtime_def bytes_of_def)
  have "fetchFromMarketaux example_down ''ACME'' example_config =
      (Inr (map (marketaux_article example_down)
         [marketaux_item ''T1'' ''d1'' ''u1'' ''wire'' ''2024-01-02T03:04:05Z'',
          marketaux_item ''T2'' ''d2'' ''u2'' ''wire'' ''yesterday'']),
       [HttpDo (Request (marketaux_url ''ACME'' ''secret''))])"
    by (rule fetchFromMarketaux_decoded [OF _ _ get dec])
      (simp_all add: example_down_env example_config_def config_def)
  then show ?thesis
    by (simp add: marketaux_article_def parse_or_zero_def example_down_parse)
qed

lemma example_down_finnhub:
  "fst (fetchFromFinnhub example_down ''ACME'' example_config) =
     Inl (libError ''connection refused, attempt 2'')"
proof -
  let ?url = "finnhub_url ''ACME'' ''2024-01-02'' ''2024-01-05'' ''secret''"
  have "NewRequestWithContext example_down ?url = Inr (Request ?url)"
    by (simp add: example_down_def example_runtime_def finnhub_url_def)
  from doGetWithRetry_cases [OF this]
  have "fst (doGetWithRetry example_down ?url)
      = (None, Some (libError ''connection refused, attempt 2''))"
    by (simp add: example_down_def example_runtime_def finnhub_down_def always_refused_def
        attempt_error_def response_body_def finnhub_url_def)
  moreover have "Now_Format example_down (- 3) = ''2024-01-02''"
    "Now_Format example_down 0 = ''2024-01-05''"
    by (simp_all add: example_down_def example_runtime_def)
  ultimately show ?thesis
    by (auto simp: fetchFromFinnhub_def example_down_env example_config_def config_def
        split: prod.splits)
qed

lemma example_down_google:
  "fst (fetchFromGoogleCSE example_down ''ACME'' example_config) =
     Inr [\<lparr> Source = ''example.com'', Title = ''T1'', Description = ''s1'', URL = ''u1'',
            PublishedAt = zero_Time \<rparr>,
          \<lparr> Source = ''example.com'', Title = ''T3'', Description = ''s3'', URL = ''u4'',
            PublishedAt = zero_Time \<rparr>]"
proof -
  have lim: "GoogleCSELimit example_config = 50"
    by (simp add: example_config_def config_def)
  have get: "doGetWithRetry example_down (google_url ''ACME'' (Getenv example_down ''GOOGLE_CSE_ID'')
        (Getenv example_down ''GOOGLE_CSE_API_KEY'') (GoogleCSELimit example_config))
      = ((Some ''ok'', None), [HttpDo (Request (google_url ''ACME'' ''secret'' ''secret'' 50))])"
    unfolding example_down_env lim
    by (rule example_down_get) (simp_all add: google_url_def itoa_def digits.simps)
  have dec: "Unmarshal_GoogleCSE example_down (bytes_of (Some ''ok'')) =
      Inr [google_item ''T1'' ''s1'' ''u1'' ''example.com'' [] [''Jan 2, 2024''],
           google_item ''T3'' ''s3'' ''u4'' ''example.com'' [] []]"
    by (simp add: example_down_def example_runtime_def bytes_of_def)
  have "fetchFromGoogleCSE example_down ''ACME'' example_config =
      (Inr (map (google_article example_down)
         [google_item ''T1'' ''s1'' ''u1'' ''example.com'' [] [''Jan 2, 2024''],
          google_item ''T3'' ''s3'' ''u4'' ''example.com'' [] []]),
       [HttpDo (Request (google_url ''ACME'' ''secret'' ''secret'' 50))])"
    by (rule fetchFromGoogleCSE_decoded [OF _ _ _ get dec])
      (simp_all add: example_down_env lim)
  then show ?thesis
    by (simp add: google_article_def example_down_parse)
qed

lemma example_dispatched:
  "map name (dispatched example_config) = [''Marketaux'', ''Finnhub'', ''GoogleCSE'']"
  "map fetch (dispatched example_config) = [fetchFromMarketaux, fetchFromFinnhub, fetchFromGoogleCSE]"
  by (simp_all add: dispatched_def fetchers_def skipped_def example_config_def config_def)

lemma example_run:
  "fst (RunNewsPipeline example_down rev no_metrics ''ACME'' (Some example_config)) =
     ([\<lparr> Source = ''example.com'', Title = ''T1'', Description = ''s1'', URL = ''u1'',
          PublishedAt = zero_Time \<rparr>,
       \<lparr> Source = ''example.com'', Title = ''T3'', Description = ''s3'', URL = ''u4'',
          PublishedAt = zero_Time \<rparr>,
       \<lparr> Source = ''wire'', Title = ''T2'', Description = ''d2'', URL = ''u2'',
          PublishedAt = zero_Time \<rparr>],
      Some (joinError [wrapError ''Finnhub'' (libError ''connection refused, attempt 2'')]))"
proof -
  have d: "dispatched example_config =
      [\<lparr> name = ''Marketaux'', use = True, skip = False, limit = 100,
         fetch = fetchFromMarketaux \<rparr>,
       \<lparr> name = ''Finnhub'', use = True, skip = False, limit = 100,
         fetch = fetchFromFinnhub \<rparr>,
       \<lparr> name = ''GoogleCSE'', use = True, skip = False, limit = 50,
         fetch = fetchFromGoogleCSE \<rparr>]"
    by (simp add: dispatched_def fetchers_def skipped_def example_config_def config_def)
  have sha: "sha1_Sum example_down = example_digest"
    by (simp add: example_down_def example_runtime_def)
  show ?thesis
    unfolding RunNewsPipeline_def Let_def
    by (simp add: barrier_lists [of example_config] d fetched_articles_def fetch_errors_def
        example_down_marketaux example_down_finnhub example_down_google errors_Join_def sha
        deduplicateArticles_def dedup_key_def example_digest_def hex_def hexdigit_def)
qed

subsection \<open>Claims about \<open>RunNewsPipeline\<close>\<close>

text \<open>
  Claim C1. In every run of \<open>RunNewsPipeline\<close>, whatever the order in which the
  goroutines finish, every participating source contributes either its articles or an
  error tagged with its name: the articles of a succeeding source are a contiguous part
  of the accumulated list, and each of them has a record with the same key in the
  returned, deduplicated list; the error of a failing source, wrapped with the source's
  name, is in the error list. The returned list is the deduplicated accumulated list,
  and the returned error is nil exactly when the error list is empty.
\<close>

theorem RunNewsPipeline_partial_failure:
  assumes "c = (case cfg of None \<Rightarrow> config | Some x \<Rightarrow> x)"
    and "mset (sched (dispatched c)) = mset (dispatched c)"
    and "RunNewsPipeline rt sched m company cfg = ((unique, err), st)"
  shows "(\<forall>f\<in>set (dispatched c).
            case fst (fetch f rt company c) of
              Inl e \<Rightarrow> wrapError (name f) e \<in> set (errs st)
            | Inr articles \<Rightarrow>
                sublist articles (allArticles st)
                \<and> (\<forall>a\<in>set articles. \<exists>b\<in>set unique.
                      dedup_key (sha1_Sum rt) b = dedup_key (sha1_Sum rt) a))
    \<and> unique = deduplicateArticles (sha1_Sum rt) (allArticles st)
    \<and> err = errors_Join (errs st)
    \<and> (err = None \<longleftrightarrow> errs st = [])"
proof -
  have st: "st = barrier rt sched m company cfg"
    and unique: "unique = deduplicateArticles (sha1_Sum rt) (allArticles st)"
    and err: "err = errors_Join (errs st)"
    using assms(3) by (auto simp: RunNewsPipeline_def Let_def)
  have set_eq: "set (sched (dispatched c)) = set (dispatched c)"
    using assms(2) by (rule mset_eq_setD)
  have each: "case fst (fetch f rt company c) of
              Inl e \<Rightarrow> wrapError (name f) e \<in> set (errs st)
            | Inr articles \<Rightarrow>
                sublist articles (allArticles st)
                \<and> (\<forall>a\<in>set articles. \<exists>b\<in>set unique.
                      dedup_key (sha1_Sum rt) b = dedup_key (sha1_Sum rt) a)"
    if f: "f \<in> set (dispatched c)" for f
  proof (cases "fst (fetch f rt company c)")
    case (Inl e)
    have "wrapError (name f) e \<in> set (fetch_errors rt company c f)"
      using Inl by (simp add: fetch_errors_def)
    then have "wrapError (name f) e \<in> set (errs st)"
      using f set_eq unfolding st barrier_lists [OF assms(1)] by auto
    with Inl show ?thesis by simp
  next
    case (Inr articles)
    have fa: "fetched_articles rt company c f = articles"
      using Inr by (simp add: fetched_articles_def)
    have "f \<in> set (sched (dispatched c))"
      using f set_eq by simp
    then have "sublist (fetched_articles rt company c f)
        (concat (map (fetched_articles rt company c) (sched (dispatched c))))"
      by (rule sublist_concat_member)
    then have sub: "sublist articles (allArticles st)"
      unfolding st barrier_lists [OF assms(1)] fa .
    then have "set articles \<subseteq> set (allArticles st)"
      by (rule set_mono_sublist)
    then have "\<forall>a\<in>set articles. \<exists>b\<in>set unique.
        dedup_key (sha1_Sum rt) b = dedup_key (sha1_Sum rt) a"
      unfolding unique by (auto intro: dedup_represents)
    with sub Inr show ?thesis by simp
  qed
  have "err = None \<longleftrightarrow> errs st = []"
    unfolding err by (simp add: errors_Join_def)
  with each unique err show ?thesis by blast
qed

theorem RunNewsPipeline_partial_failure_witness:
  "fst (RunNewsPipeline example_down rev no_metrics ''ACME'' (Some example_config)) =
     ([\<lparr> Source = ''example.com'', Title = ''T1'', Description = ''s1'', URL = ''u1'',
          PublishedAt = zero_Time \<rparr>,
       \<lparr> Source = ''example.com'', Title = ''T3'', Description = ''s3'', URL = ''u4'',
          PublishedAt = zero_Time \<rparr>,
       \<lparr> Source = ''wire'', Title = ''T2'', Description = ''d2'', URL = ''u2'',
          PublishedAt = zero_Time \<rparr>],
      Some (joinError [wrapError ''Finnhub'' (libError ''connection refused, attempt 2'')]))
   \<and> wrapError ''Finnhub'' (libError ''connection refused, attempt 2'')
       \<in> set (errs (snd (RunNewsPipeline example_down rev no_metrics ''ACME''
             (Some example_config))))
   \<and> sublist
        [\<lparr> Source = ''wire'', Title = ''T1'', Description = ''d1'', URL = ''u1'',
           PublishedAt = Time 63839761445 0 \<rparr>,
         \<lparr> Source = ''wire'', Title = ''T2'', Description = ''d2'', URL = ''u2'',
           PublishedAt = zero_Time \<rparr>]
        (allArticles (snd (RunNewsPipeline example_down rev no_metrics ''ACME''
           (Some example_config))))"
proof -
  let ?R = "RunNewsPipeline example_down rev no_metrics ''ACME'' (Some example_config)"
  let ?mx = "\<lparr> name = ''Marketaux'', use = True, skip = False, limit = 100,
               fetch = fetchFromMarketaux \<rparr>"
  let ?fh = "\<lparr> name = ''Finnhub'', use = True, skip = False, limit = 100,
               fetch = fetchFromFinnhub \<rparr>"
  have members: "?mx \<in> set (dispatched example_config)" "?fh \<in> set (dispatched example_config)"
    by (simp_all add: dispatched_def fetchers_def skipped_def example_config_def config_def)
  have perm: "mset (rev (dispatched example_config)) = mset (dispatched example_config)"
    by simp
  have all: "\<forall>f\<in>set (dispatched example_config).
      case fst (fetch f example_down ''ACME'' example_config) of
        Inl e \<Rightarrow> wrapError (name f) e \<in> set (errs (snd ?R))
      | Inr articles \<Rightarrow>
          sublist articles (allArticles (snd ?R))
          \<and> (\<forall>a\<in>set articles. \<exists>b\<in>set (fst (fst ?R)).
                dedup_key (sha1_Sum example_down) b = dedup_key (sha1_Sum example_down) a)"
    using RunNewsPipeline_partial_failure [where c = example_config
        and cfg = "Some example_config" and sched = rev and rt = example_down
        and m = no_metrics and company = "''ACME''" and unique = "fst (fst ?R)"
        and err = "snd (fst ?R)" and st = "snd ?R", OF _ perm]
    by simp
  from all members(1) have "sublist
        [\<lparr> Source = ''wire'', Title = ''T1'', Description = ''d1'', URL = ''u1'',
           PublishedAt = Time 63839761445 0 \<rparr>,
         \<lparr> Source = ''wire'', Title = ''T2'', Description = ''d2'', URL = ''u2'',
           PublishedAt = zero_Time \<rparr>] (allArticles (snd ?R))"
    by (force simp: example_down_marketaux)
  moreover from all members(2)
  have "wrapError ''Finnhub'' (libError ''connection refused, attempt 2'') \<in> set (errs (snd ?R))"
    by (force simp: example_down_finnhub)
  ultimately show ?thesis
    using example_run by simp
qed

text \<open>
  Claim C3. A source of the table participates in a run exactly when its enabled flag is
  true, its skip flag is false and its limit is positive: then, and only then, its
  goroutine is scheduled and its fetch function is called, and its request counter goes
  up by one. A source that does not participate leaves its three counters unchanged and
  has no error under its name in the error list; the accumulated articles and errors
  are those of the scheduled sources alone.
\<close>

theorem RunNewsPipeline_participation:
  assumes "c = (case cfg of None \<Rightarrow> config | Some x \<Rightarrow> x)"
    and "mset (sched (dispatched c)) = mset (dispatched c)"
    and "RunNewsPipeline rt sched m company cfg = ((unique, err), st)"
    and "f \<in> set (fetchers c)"
  shows "(f \<in> set (sched (dispatched c)) \<longleftrightarrow> use f \<and> \<not> skip f \<and> 0 < limit f)
    \<and> (name f \<in> fst ` set (calls st) \<longleftrightarrow> use f \<and> \<not> skip f \<and> 0 < limit f)
    \<and> (use f \<and> \<not> skip f \<and> 0 < limit f \<longrightarrow>
          newsFetchCount st (name f) = newsFetchCount m (name f) + 1)
    \<and> (\<not> (use f \<and> \<not> skip f \<and> 0 < limit f) \<longrightarrow>
          newsFetchCount st (name f) = newsFetchCount m (name f)
          \<and> newsFetchErrors st (name f) = newsFetchErrors m (name f)
          \<and> newsFetchDuration st (name f) = newsFetchDuration m (name f)
          \<and> (\<forall>e. wrapError (name f) e \<notin> set (errs st)))
    \<and> allArticles st = concat (map (fetched_articles rt company c) (sched (dispatched c)))
    \<and> errs st = concat (map (fetch_errors rt company c) (sched (dispatched c)))"
proof -
  let ?P = "use f \<and> \<not> skip f \<and> 0 < limit f"
  have st: "st = barrier rt sched m company cfg"
    using assms(3) by (auto simp: RunNewsPipeline_def Let_def)
  have set_eq: "set (sched (dispatched c)) = set (dispatched c)"
    using assms(2) by (rule mset_eq_setD)
  have member: "f \<in> set (sched (dispatched c)) \<longleftrightarrow> ?P"
    using assms(4) by (simp add: set_eq dispatched_iff)
  have same_name: "g = f" if "g \<in> set (sched (dispatched c))" and "name g = name f" for g
    using that assms(4) fetcher_names_inj [of g c f] by (simp add: set_eq dispatched_iff)
  have called: "name f \<in> fst ` set (calls st) \<longleftrightarrow> ?P"
  proof
    assume "name f \<in> fst ` set (calls st)"
    then obtain g where "g \<in> set (sched (dispatched c))" and "name g = name f"
      unfolding st barrier_lists [OF assms(1)] by auto
    then have "f \<in> set (sched (dispatched c))"
      using same_name by blast
    then show ?P using member by simp
  next
    assume ?P
    then have "f \<in> set (sched (dispatched c))" using member by simp
    then show "name f \<in> fst ` set (calls st)"
      unfolding st barrier_lists [OF assms(1)] by force
  qed
  have count: "length (filter (\<lambda>g. name g = name f) (sched (dispatched c))) = (if ?P then 1 else 0)"
  proof (cases ?P)
    case True
    then have "f \<in> set (dispatched c)"
      using member set_eq by simp
    then have "filter (\<lambda>g. name g = name f) (dispatched c) = [f]"
      by (rule filter_name_single [OF dispatched_names_distinct])
    then show ?thesis
      using True length_filter_perm [OF assms(2), of "\<lambda>g. name g = name f"] by simp
  next
    case False
    then have "filter (\<lambda>g. name g = name f) (sched (dispatched c)) = []"
      using member same_name by (auto simp: filter_empty_conv)
    with False show ?thesis by simp
  qed
  have no_err: "\<forall>e. wrapError (name f) e \<notin> set (errs st)" if "\<not> ?P"
  proof (intro allI notI)
    fix e
    assume "wrapError (name f) e \<in> set (errs st)"
    then obtain g where "g \<in> set (sched (dispatched c))" and "name g = name f"
      unfolding st barrier_lists [OF assms(1)]
      by (auto simp: fetch_errors_def split: sum.splits)
    then have "f \<in> set (sched (dispatched c))"
      using same_name by blast
    with that member show False by simp
  qed
  have no_fail: "filter (\<lambda>g. name g = name f \<and> isl (fst (fetch g rt company c)))
      (sched (dispatched c)) = []" if "\<not> ?P"
    using that member same_name by (auto simp: filter_empty_conv)
  show ?thesis
    using member called count no_err no_fail
    unfolding st barrier_counters [OF assms(1)] barrier_lists [OF assms(1)]
    by simp
qed

theorem RunNewsPipeline_participation_witness:
  "newsFetchCount (snd (RunNewsPipeline example_down rev no_metrics ''ACME''
       (Some example_config))) ''EODHD'' = 0
   \<and> ''EODHD'' \<notin> fst ` set (calls (snd (RunNewsPipeline example_down rev no_metrics ''ACME''
       (Some example_config))))
   \<and> newsFetchCount (snd (RunNewsPipeline example_down rev no_metrics ''ACME''
       (Some example_config))) ''Marketaux'' = 1
   \<and> ''Marketaux'' \<in> fst ` set (calls (snd (RunNewsPipeline example_down rev no_metrics ''ACME''
       (Some example_config))))"
proof -
  let ?R = "RunNewsPipeline example_down rev no_metrics ''ACME'' (Some example_config)"
  let ?mx = "\<lparr> name = ''Marketaux'', use = True, skip = False, limit = 100,
               fetch = fetchFromMarketaux \<rparr>"
  let ?eod = "\<lparr> name = ''EODHD'', use = True, skip = True, limit = 20,
                fetch = fetchFromEODHD \<rparr>"
  have members: "?mx \<in> set (fetchers example_config)" "?eod \<in> set (fetchers example_config)"
    by (simp_all add: fetchers_def example_config_def config_def)
  have perm: "mset (rev (dispatched example_config)) = mset (dispatched example_config)"
    by simp
  note part = RunNewsPipeline_participation [where c = example_config
      and cfg = "Some example_config" and sched = rev and rt = example_down
      and m = no_metrics and company = "''ACME''" and unique = "fst (fst ?R)"
      and err = "snd (fst ?R)" and st = "snd ?R", OF _ perm]
  show ?thesis
    using part [OF _ _ members(1)] part [OF _ _ members(2)]
    by (simp add: no_metrics_def)
qed

end
